theory Spec2Isabelle
  imports Main
begin

section \<open>The data of pkg/cmd: resources, accessors, errors\<close>

text \<open>
  The values the Go code receives from client-go by pointer (\<open>*rest.Config\<close>,
  \<open>*dynamic.DynamicClient\<close>, \<open>meta.RESTMapper\<close>) are opaque to \<open>runCmd\<close>: it only hands
  them on. They are modelled as handles.
\<close>

datatype restConfig = RestConfig nat
datatype dynClient = DynClient nat
datatype restMapper = RestMapper nat

text \<open>\<open>schema.GroupVersionResource\<close>.\<close>

record gvr =
  Group :: string
  Version :: string
  Resource :: string

text \<open>
  \<open>dynamic.ResourceInterface\<close>, built by the two expressions of the source:
  \<open>dynClient.Resource(gvr)\<close> and \<open>dynClient.Resource(gvr).Namespace(ns)\<close>.
\<close>

datatype resourceInterface =
    DynResource dynClient gvr
  | Namespace resourceInterface string

text \<open>
  An item of \<open>list.Items\<close>. The code reads \<open>item.GetName()\<close> and \<open>item.GetNamespace()\<close>;
  whatever else an \<open>unstructured.Unstructured\<close> carries is the record's extension.
\<close>

record item =
  GetName :: string
  GetNamespace :: string

text \<open>The anonymous \<open>struct { NS, Name string }\<close> of the delete case.\<close>

record matched_ref =
  NS :: string
  Name :: string

text \<open>
  Errors returned by \<open>runCmd\<close>. An error of a library is its message; the two
  \<open>fmt.Errorf\<close> calls keep their arguments (\<open>"unknown resource %q: %w"\<close> and
  \<open>"unknown operation %q"\<close>).
\<close>

datatype error =
    Ext string
  | UnknownResource string string
  | UnknownOperation string

text \<open>How a call of \<open>runCmd\<close> ends: \<open>return nil\<close>, \<open>return err\<close>, or a panic.\<close>

datatype panic_value = PanicError string | IndexOutOfRange

datatype result = Return "error option" | Panic panic_value

text \<open>The package variables \<open>allNamespaces\<close> and \<open>autoYes\<close>, set from the flags.\<close>

record flags =
  allNamespaces :: bool
  autoYes :: bool

section \<open>The outside world\<close>

text \<open>
  Everything \<open>runCmd\<close> calls outside the package: Go's \<open>regexp\<close>, the kube configuration
  flags, the REST mapper, the dynamic client and the input stream. The calls that reach
  the configuration, the cluster or the terminal take the state of the world and return
  the new one. \<open>Fscanln\<close> returns the string that \<open>fmt.Fscanln(streams.In, &confirm)\<close>
  stores in \<open>confirm\<close>.
\<close>

record ('w, 're, 'x) api =
  regexp_Compile :: "string \<Rightarrow> string + 're"
  MatchString :: "'re \<Rightarrow> string \<Rightarrow> bool"
  ToRESTConfig :: "'w \<Rightarrow> (string + restConfig) \<times> 'w"
  NewForConfig :: "restConfig \<Rightarrow> 'w \<Rightarrow> (string + dynClient) \<times> 'w"
  ToRESTMapper :: "'w \<Rightarrow> (string + restMapper) \<times> 'w"
  ResourceFor :: "restMapper \<Rightarrow> string \<Rightarrow> 'w \<Rightarrow> (string + gvr) \<times> 'w"
  ConfigNamespace :: "'w \<Rightarrow> (string + string) \<times> 'w"
  ri_List :: "resourceInterface \<Rightarrow> 'w \<Rightarrow> (string + 'x item_scheme list) \<times> 'w"
  ri_Delete :: "resourceInterface \<Rightarrow> string \<Rightarrow> 'w \<Rightarrow> string option \<times> 'w"
  Fscanln :: "'w \<Rightarrow> string \<times> 'w"

text \<open>
  What an invocation does is recorded in order: every call that leaves the package, every
  read of the input stream and every write to a stream. A delete call is recorded with
  its answer (\<open>None\<close> is Go's \<open>nil\<close> error).
\<close>

datatype event =
    Call_ToRESTConfig
  | Call_NewForConfig
  | Call_ToRESTMapper
  | Call_ResourceFor string
  | Call_Namespace
  | Call_List resourceInterface
  | Call_Delete resourceInterface string "string option"
  | Read_In string
  | Write_Out string
  | Write_ErrOut string
  | Println string

record 'w state =
  world :: 'w
  trace :: "event list"

definition call :: "event \<Rightarrow> ('w \<Rightarrow> 'r \<times> 'w) \<Rightarrow> 'w state \<Rightarrow> 'r \<times> 'w state" where
  "call ev f s = (case f (world s) of (r, w) \<Rightarrow> (r, \<lparr>world = w, trace = trace s @ [ev]\<rparr>))"

definition emit :: "event \<Rightarrow> 'w state \<Rightarrow> 'w state" where
  "emit ev s = \<lparr>world = world s, trace = trace s @ [ev]\<rparr>"

section \<open>BuildResourceInterface\<close>

definition BuildResourceInterface ::
  "('w, 're, 'x) api \<Rightarrow> flags \<Rightarrow> string \<Rightarrow> 'w state \<Rightarrow> (error + resourceInterface) \<times> 'w state"
where
  "BuildResourceInterface api fl resource s0 =
    (case call Call_ToRESTConfig (ToRESTConfig api) s0 of
       (Inl err, s1) \<Rightarrow> (Inl (Ext err), s1)
     | (Inr restCfg, s1) \<Rightarrow>
    (case call Call_NewForConfig (NewForConfig api restCfg) s1 of
       (Inl err, s2) \<Rightarrow> (Inl (Ext err), s2)
     | (Inr dynClient, s2) \<Rightarrow>
    (case call Call_ToRESTMapper (ToRESTMapper api) s2 of
       (Inl err, s3) \<Rightarrow> (Inl (Ext err), s3)
     | (Inr mapper, s3) \<Rightarrow>
    (case call (Call_ResourceFor resource) (ResourceFor api mapper resource) s3 of
       (Inl err, s4) \<Rightarrow> (Inl (UnknownResource resource err), s4)
     | (Inr gvkResource, s4) \<Rightarrow>
    (case call Call_Namespace (ConfigNamespace api) s4 of
       (Inl err, s5) \<Rightarrow> (Inl (Ext err), s5)
     | (Inr ns, s5) \<Rightarrow>
        (if Resource gvkResource = ''nodes'' \<or> Resource gvkResource = ''namespaces''
            \<or> allNamespaces fl
         then (Inr (DynResource dynClient gvkResource), s5)
         else (Inr (Namespace (DynResource dynClient gvkResource) ns), s5)))))))"

text \<open>
  The scope decision in the words of the specification (section 4.1): a type that is
  intrinsically cluster-scoped first, then the all-namespaces flag, then the ambient
  namespace; and the accessor each scope stands for.
\<close>

datatype scope = ClusterScoped | AllNamespaces | SingleNamespace string

definition spec_scope :: "string \<Rightarrow> bool \<Rightarrow> string \<Rightarrow> scope" where
  "spec_scope resolved allNamespacesFlag ambientNamespace =
    (if resolved = ''nodes'' \<or> resolved = ''namespaces'' then ClusterScoped
     else if allNamespacesFlag then AllNamespaces
     else SingleNamespace ambientNamespace)"

fun scoped_accessor :: "dynClient \<Rightarrow> gvr \<Rightarrow> scope \<Rightarrow> resourceInterface" where
  "scoped_accessor c g ClusterScoped = DynResource c g"
| "scoped_accessor c g AllNamespaces = DynResource c g"
| "scoped_accessor c g (SingleNamespace ns) = Namespace (DynResource c g) ns"

section \<open>Formatting\<close>

text \<open>
  Strings are byte strings, as in Go. \<open>%d\<close> of a non-negative \<open>int\<close> is its decimal
  numeral; the counters and \<open>len(matched)\<close> are never negative.
\<close>

definition newline :: char where
  "newline = CHR 0x0A"

definition digit_char :: "nat \<Rightarrow> char" where
  "digit_char d = char_of (48 + d)"

function decimal :: "nat \<Rightarrow> string" where
  "decimal n = (if n < 10 then [digit_char n] else decimal (n div 10) @ [digit_char (n mod 10)])"
  by pat_completeness auto
termination
  by (relation "measure id") auto

declare decimal.simps [simp del]

text \<open>
  \<open>strings.ToLower\<close> on the bytes of ASCII. Go lowers the other code points of a UTF-8
  string as well; no code point other than \<open>Y\<close> is lowered to \<open>y\<close>, so the comparison
  of the result with \<open>"y"\<close>, the only use the code makes of it, is not affected.
\<close>

definition lower_byte :: "char \<Rightarrow> char" where
  "lower_byte c =
    (let n = (of_char c :: nat) in if 65 \<le> n \<and> n \<le> 90 then char_of (n + 32) else c)"

definition ToLower :: "string \<Rightarrow> string" where
  "ToLower s = map lower_byte s"

text \<open>The UTF-8 bytes of the two signs of the summary line (U+2705 and U+274C).\<close>

definition check_mark :: string where
  "check_mark = [CHR 0xE2, CHR 0x9C, CHR 0x85]"

definition cross_mark :: string where
  "cross_mark = [CHR 0xE2, CHR 0x9D, CHR 0x8C]"

text \<open>The lines \<open>runCmd\<close> prints in the delete case, one definition for each format string.\<close>

definition no_match_line :: string where
  "no_match_line = ''No resources matched your pattern.'' @ [newline]"

definition header_line :: "string \<Rightarrow> string" where
  "header_line resource = ''The following '' @ resource @ '' match your regex:'' @ [newline]"

definition display_line :: "matched_ref \<Rightarrow> string" where
  "display_line m =
    (if NS m \<noteq> '''' then ''  '' @ NS m @ ''/'' @ Name m @ [newline]
     else ''  '' @ Name m @ [newline])"

definition prompt_line :: "nat \<Rightarrow> string" where
  "prompt_line n = [newline] @ ''Delete all '' @ decimal n @ '' resources? [y/N]: ''"

definition aborted_line :: string where
  "aborted_line = ''Aborted.'' @ [newline]"

definition failed_line :: "matched_ref \<Rightarrow> string \<Rightarrow> string" where
  "failed_line m err =
    ''Failed to delete '' @ NS m @ ''/'' @ Name m @ '': '' @ err @ [newline]"

definition deleted_line :: "matched_ref \<Rightarrow> string" where
  "deleted_line m = ''Deleted '' @ NS m @ ''/'' @ Name m @ [newline]"

definition summary_line :: "nat \<Rightarrow> nat \<Rightarrow> string" where
  "summary_line deleted failed =
    [newline] @ check_mark @ '' '' @ decimal deleted @ '' deleted, '' @ cross_mark @ '' ''
      @ decimal failed @ '' failed.'' @ [newline]"

section \<open>runCmd\<close>

text \<open>The loop of the get case: one \<open>fmt.Println(name)\<close> for each item whose name matches.\<close>

fun get_loop :: "('w, 're, 'x) api \<Rightarrow> 're \<Rightarrow> 'x item_scheme list \<Rightarrow> 'w state \<Rightarrow> 'w state" where
  "get_loop api re [] s = s"
| "get_loop api re (item # items) s =
    (let name = GetName item in
     if MatchString api re name then get_loop api re items (emit (Println name) s)
     else get_loop api re items s)"

text \<open>The first loop of the delete case: \<open>matched\<close> grows by \<open>append\<close>.\<close>

fun collect_matched ::
  "('w, 're, 'x) api \<Rightarrow> 're \<Rightarrow> 'x item_scheme list \<Rightarrow> matched_ref list \<Rightarrow> matched_ref list"
where
  "collect_matched api re [] matched = matched"
| "collect_matched api re (item # items) matched =
    (let name = GetName item; ns = GetNamespace item in
     if MatchString api re name
     then collect_matched api re items (matched @ [\<lparr>NS = ns, Name = name\<rparr>])
     else collect_matched api re items matched)"

text \<open>The loop that displays the matches.\<close>

fun display_matches :: "matched_ref list \<Rightarrow> 'w state \<Rightarrow> 'w state" where
  "display_matches [] s = s"
| "display_matches (m # ms) s = display_matches ms (emit (Write_Out (display_line m)) s)"

text \<open>
  The loop that deletes: the accessor of each match is chosen from the match's own
  namespace, the two counters are the loop's state, and a failed delete goes on to the
  next match.
\<close>

fun delete_loop ::
  "('w, 're, 'x) api \<Rightarrow> resourceInterface \<Rightarrow> matched_ref list \<Rightarrow> nat \<Rightarrow> nat \<Rightarrow> 'w state
    \<Rightarrow> (nat \<times> nat) \<times> 'w state"
where
  "delete_loop api baseRI [] deleted failed s = ((deleted, failed), s)"
| "delete_loop api baseRI (m # ms) deleted failed s =
    (let targetRI = (if NS m \<noteq> '''' then Namespace baseRI (NS m) else baseRI) in
     case ri_Delete api targetRI (Name m) (world s) of
       (Some err, w) \<Rightarrow>
         delete_loop api baseRI ms deleted (failed + 1)
           \<lparr>world = w,
            trace = trace s @ [Call_Delete targetRI (Name m) (Some err),
                               Write_ErrOut (failed_line m err)]\<rparr>
     | (None, w) \<Rightarrow>
         delete_loop api baseRI ms (deleted + 1) failed
           \<lparr>world = w,
            trace = trace s @ [Call_Delete targetRI (Name m) None,
                               Write_Out (deleted_line m)]\<rparr>)"

text \<open>
  "Rebuild client for proper namespace scoping": the four calls between the confirmation
  and the deleting loop, each with its \<open>return err\<close>.
\<close>

definition rebuild_client ::
  "('w, 're, 'x) api \<Rightarrow> string \<Rightarrow> 'w state \<Rightarrow> (error + dynClient \<times> gvr) \<times> 'w state"
where
  "rebuild_client api resource s0 =
    (case call Call_ToRESTConfig (ToRESTConfig api) s0 of
       (Inl err, s1) \<Rightarrow> (Inl (Ext err), s1)
     | (Inr restCfg, s1) \<Rightarrow>
    (case call Call_NewForConfig (NewForConfig api restCfg) s1 of
       (Inl err, s2) \<Rightarrow> (Inl (Ext err), s2)
     | (Inr dynClient, s2) \<Rightarrow>
    (case call Call_ToRESTMapper (ToRESTMapper api) s2 of
       (Inl err, s3) \<Rightarrow> (Inl (Ext err), s3)
     | (Inr mapper, s3) \<Rightarrow>
    (case call (Call_ResourceFor resource) (ResourceFor api mapper resource) s3 of
       (Inl err, s4) \<Rightarrow> (Inl (UnknownResource resource err), s4)
     | (Inr gvr, s4) \<Rightarrow> (Inr (dynClient, gvr), s4)))))"

text \<open>
  The delete case from the rebuild of the client to the summary: the part that runs once
  the deletion is confirmed or the confirmation is skipped.
\<close>

definition delete_confirmed ::
  "('w, 're, 'x) api \<Rightarrow> string \<Rightarrow> matched_ref list \<Rightarrow> 'w state \<Rightarrow> result \<times> 'w state"
where
  "delete_confirmed api resource matched s0 =
    (case rebuild_client api resource s0 of
       (Inl err, s1) \<Rightarrow> (Return (Some err), s1)
     | (Inr (dynClient, gvr), s1) \<Rightarrow>
    (case delete_loop api (DynResource dynClient gvr) matched 0 0 s1 of
       ((deleted, failed), s2) \<Rightarrow>
         (Return None, emit (Write_Out (summary_line deleted failed)) s2)))"

text \<open>The delete case of the \<open>switch\<close>.\<close>

definition delete_case ::
  "('w, 're, 'x) api \<Rightarrow> flags \<Rightarrow> string \<Rightarrow> 're \<Rightarrow> 'x item_scheme list \<Rightarrow> 'w state
    \<Rightarrow> result \<times> 'w state"
where
  "delete_case api fl resource re items s0 =
    (let matched = collect_matched api re items [] in
     if length matched = 0 then (Return None, emit (Write_Out no_match_line) s0)
     else
       let s1 = emit (Write_Out (header_line resource)) s0;
           s2 = display_matches matched s1
       in
       if \<not> autoYes fl then
         (let s3 = emit (Write_Out (prompt_line (length matched))) s2 in
          case Fscanln api (world s3) of
            (confirm, w) \<Rightarrow>
              (let s4 = \<lparr>world = w, trace = trace s3 @ [Read_In confirm]\<rparr> in
               if ToLower confirm \<noteq> ''y''
               then (Return None, emit (Write_Out aborted_line) s4)
               else delete_confirmed api resource matched s4))
       else delete_confirmed api resource matched s2)"

text \<open>The optional second argument: \<open>pattern\<close> stays the empty string without it.\<close>

definition pattern_arg :: "string list \<Rightarrow> string" where
  "pattern_arg args = (if length args > 1 then args ! 1 else '''')"

text \<open>
  \<open>runCmd\<close>. \<open>args[0]\<close> of an empty \<open>args\<close> is a run-time panic in Go; cobra's
  \<open>ValidateArgs\<close> keeps such a call away, and the model says what would happen.
\<close>

definition runCmd ::
  "('w, 're, 'x) api \<Rightarrow> flags \<Rightarrow> string list \<Rightarrow> string \<Rightarrow> 'w state \<Rightarrow> result \<times> 'w state"
where
  "runCmd api fl args operation s0 =
    (let pattern = pattern_arg args in
     case args of
       [] \<Rightarrow> (Panic IndexOutOfRange, s0)
     | resource # _ \<Rightarrow>
    (case regexp_Compile api pattern of
       Inl err \<Rightarrow> (Panic (PanicError err), s0)
     | Inr re \<Rightarrow>
    (case BuildResourceInterface api fl resource s0 of
       (Inl err, s1) \<Rightarrow> (Return (Some err), s1)
     | (Inr ri, s1) \<Rightarrow>
    (case call (Call_List ri) (ri_List api ri) s1 of
       (Inl err, s2) \<Rightarrow> (Return (Some (Ext err)), s2)
     | (Inr items, s2) \<Rightarrow>
        (if operation = ''get'' then (Return None, get_loop api re items s2)
         else if operation = ''delete'' then delete_case api fl resource re items s2
         else (Return (Some (UnknownOperation operation)), s2))))))"

text \<open>\<open>ValidateArgs\<close>, the check cobra runs before \<open>runCmd\<close>.\<close>

definition ValidateArgs :: "string list \<Rightarrow> string option" where
  "ValidateArgs args =
    (if length args = 0 then Some ''resource type must be specified''
     else if length args > 2 then Some ''too many arguments''
     else None)"

text \<open>
  \<open>main\<close>: \<open>root.Execute()\<close> hands on the error of \<open>runCmd\<close>, and an error is
  \<open>os.Exit(1)\<close>; returning from \<open>main\<close> is exit status 0. A panic is not caught
  anywhere, so it ends the process in the Go run time, not in \<open>main\<close>.
\<close>

datatype process_end = Exit nat | Crashed panic_value

fun main_end :: "result \<Rightarrow> process_end" where
  "main_end (Return None) = Exit 0"
| "main_end (Return (Some err)) = Exit 1"
| "main_end (Panic v) = Crashed v"

section \<open>The earlier variant of the command, pkg/cmd/regex.go\<close>

text \<open>
  The repository holds an earlier variant of the same file, \<open>kubectl regex\<close>. It differs
  in \<open>BuildResourceInterface\<close> and in the delete case, and shares the rest.
\<close>

text \<open>
  \<open>BuildResourceInterface\<close> of regex.go: the same calls, and no \<open>allNamespaces\<close> in the
  test, since that file has no such flag.
\<close>

definition BuildResourceInterface_regex ::
  "('w, 're, 'x) api \<Rightarrow> string \<Rightarrow> 'w state \<Rightarrow> (error + resourceInterface) \<times> 'w state"
where
  "BuildResourceInterface_regex api resource s0 =
    (case call Call_ToRESTConfig (ToRESTConfig api) s0 of
       (Inl err, s1) \<Rightarrow> (Inl (Ext err), s1)
     | (Inr restCfg, s1) \<Rightarrow>
    (case call Call_NewForConfig (NewForConfig api restCfg) s1 of
       (Inl err, s2) \<Rightarrow> (Inl (Ext err), s2)
     | (Inr dynClient, s2) \<Rightarrow>
    (case call Call_ToRESTMapper (ToRESTMapper api) s2 of
       (Inl err, s3) \<Rightarrow> (Inl (Ext err), s3)
     | (Inr mapper, s3) \<Rightarrow>
    (case call (Call_ResourceFor resource) (ResourceFor api mapper resource) s3 of
       (Inl err, s4) \<Rightarrow> (Inl (UnknownResource resource err), s4)
     | (Inr gvkResource, s4) \<Rightarrow>
    (case call Call_Namespace (ConfigNamespace api) s4 of
       (Inl err, s5) \<Rightarrow> (Inl (Ext err), s5)
     | (Inr ns, s5) \<Rightarrow>
        (if Resource gvkResource = ''nodes'' \<or> Resource gvkResource = ''namespaces''
         then (Inr (DynResource dynClient gvkResource), s5)
         else (Inr (Namespace (DynResource dynClient gvkResource) ns), s5)))))))"

text \<open>
  The loop of the delete case of regex.go: every item whose name matches is deleted at
  once, through the accessor that listed it, with no confirmation and no counters.
\<close>

fun delete_loop_regex ::
  "('w, 're, 'x) api \<Rightarrow> 're \<Rightarrow> resourceInterface \<Rightarrow> 'x item_scheme list \<Rightarrow> 'w state \<Rightarrow> 'w state"
where
  "delete_loop_regex api re ri [] s = s"
| "delete_loop_regex api re ri (item # items) s =
    (let name = GetName item in
     if MatchString api re name then
       (case ri_Delete api ri name (world s) of
          (Some err, w) \<Rightarrow>
            delete_loop_regex api re ri items
              \<lparr>world = w,
               trace = trace s @ [Call_Delete ri name (Some err),
                 Write_ErrOut (''Failed to delete '' @ name @ '': '' @ err @ [newline])]\<rparr>
        | (None, w) \<Rightarrow>
            delete_loop_regex api re ri items
              \<lparr>world = w,
               trace = trace s @ [Call_Delete ri name None,
                 Write_Out (''Deleted '' @ name @ [newline])]\<rparr>)
     else delete_loop_regex api re ri items s)"

text \<open>\<open>runCmd\<close> of regex.go.\<close>

definition runCmd_regex ::
  "('w, 're, 'x) api \<Rightarrow> string list \<Rightarrow> string \<Rightarrow> 'w state \<Rightarrow> result \<times> 'w state"
where
  "runCmd_regex api args operation s0 =
    (let pattern = pattern_arg args in
     case args of
       [] \<Rightarrow> (Panic IndexOutOfRange, s0)
     | resource # _ \<Rightarrow>
    (case regexp_Compile api pattern of
       Inl err \<Rightarrow> (Panic (PanicError err), s0)
     | Inr re \<Rightarrow>
    (case BuildResourceInterface_regex api resource s0 of
       (Inl err, s1) \<Rightarrow> (Return (Some err), s1)
     | (Inr ri, s1) \<Rightarrow>
    (case call (Call_List ri) (ri_List api ri) s1 of
       (Inl err, s2) \<Rightarrow> (Return (Some (Ext err)), s2)
     | (Inr items, s2) \<Rightarrow>
        (if operation = ''get'' then (Return None, get_loop api re items s2)
         else if operation = ''delete'' then (Return None, delete_loop_regex api re ri items s2)
         else (Return (Some (UnknownOperation operation)), s2))))))"

section \<open>Reading a trace\<close>

fun is_Delete :: "event \<Rightarrow> bool" where
  "is_Delete (Call_Delete ri name r) = True"
| "is_Delete e = False"

fun is_Read :: "event \<Rightarrow> bool" where
  "is_Read (Read_In c) = True"
| "is_Read e = False"

fun is_Write :: "event \<Rightarrow> bool" where
  "is_Write (Write_Out l) = True"
| "is_Write (Write_ErrOut l) = True"
| "is_Write (Println l) = True"
| "is_Write e = False"

text \<open>The delete calls of a trace, in order: the accessor and the name of each.\<close>

fun delete_calls :: "event list \<Rightarrow> (resourceInterface \<times> string) list" where
  "delete_calls [] = []"
| "delete_calls (Call_Delete ri name r # es) = (ri, name) # delete_calls es"
| "delete_calls (e # es) = delete_calls es"

text \<open>The answers of the delete calls of a trace, in order.\<close>

fun delete_answers :: "event list \<Rightarrow> string option list" where
  "delete_answers [] = []"
| "delete_answers (Call_Delete ri name r # es) = r # delete_answers es"
| "delete_answers (e # es) = delete_answers es"

text \<open>The calls that build a client and resolve the resource type.\<close>

definition is_config_call :: "string \<Rightarrow> event \<Rightarrow> bool" where
  "is_config_call resource e \<longleftrightarrow>
     e = Call_ToRESTConfig \<or> e = Call_NewForConfig \<or> e = Call_ToRESTMapper
       \<or> e = Call_ResourceFor resource"

text \<open>The events an invocation adds to the trace it starts from.\<close>

definition added :: "'w state \<Rightarrow> 'w state \<Rightarrow> event list" where
  "added s s' = drop (length (trace s)) (trace s')"

text \<open>
  What the deleting loop does for one match whose delete call is answered by \<open>r\<close>: the
  call, then one line on the output stream or on the error stream.
\<close>

definition report :: "matched_ref \<Rightarrow> string option \<Rightarrow> event" where
  "report m r = (case r of None \<Rightarrow> Write_Out (deleted_line m)
                         | Some err \<Rightarrow> Write_ErrOut (failed_line m err))"

definition item_events :: "resourceInterface \<Rightarrow> matched_ref \<Rightarrow> string option \<Rightarrow> event list" where
  "item_events baseRI m r =
    [Call_Delete (if NS m \<noteq> '''' then Namespace baseRI (NS m) else baseRI) (Name m) r,
     report m r]"

definition to_ref :: "'x item_scheme \<Rightarrow> matched_ref" where
  "to_ref i = \<lparr>NS = GetNamespace i, Name = GetName i\<rparr>"

section \<open>A scripted world, for concrete runs\<close>

text \<open>
  A stand-in for the libraries, to run the model on concrete inputs. Its regular
  expressions are literals, found anywhere in the name, and the one pattern \<open>(\<close> does
  not compile, as in Go. The world is the number of calls of \<open>ToRESTConfig\<close> so far;
  the call number \<open>bad_call\<close> fails. The listing is \<open>items\<close>, the names in \<open>locked\<close>
  cannot be deleted, and the operator types \<open>answer\<close>.
\<close>

fun starts_with :: "string \<Rightarrow> string \<Rightarrow> bool" where
  "starts_with s [] = True"
| "starts_with [] (p # ps) = False"
| "starts_with (c # s) (p # ps) = (c = p \<and> starts_with s ps)"

fun contains :: "string \<Rightarrow> string \<Rightarrow> bool" where
  "contains [] p = (p = [])"
| "contains (c # s) p = (starts_with (c # s) p \<or> contains s p)"

definition literal_Compile :: "string \<Rightarrow> string + string" where
  "literal_Compile p = (if p = ''('' then Inl ''missing closing )'' else Inr p)"

definition scripted_ResourceFor :: "string \<Rightarrow> string + gvr" where
  "scripted_ResourceFor r =
    (if r = ''pods'' \<or> r = ''po'' then Inr \<lparr>Group = '''', Version = ''v1'', Resource = ''pods''\<rparr>
     else if r = ''nodes'' \<or> r = ''no'' then Inr \<lparr>Group = '''', Version = ''v1'', Resource = ''nodes''\<rparr>
     else if r = ''namespaces'' \<or> r = ''ns''
       then Inr \<lparr>Group = '''', Version = ''v1'', Resource = ''namespaces''\<rparr>
     else Inl ''no matches for resource'')"

definition scripted :: "nat \<Rightarrow> item list \<Rightarrow> string list \<Rightarrow> string \<Rightarrow> (nat, string, unit) api" where
  "scripted bad_call items locked answer =
    \<lparr>regexp_Compile = literal_Compile,
     MatchString = (\<lambda>re name. contains name re),
     ToRESTConfig =
       (\<lambda>w. (if Suc w = bad_call then Inl ''no configuration'' else Inr (RestConfig w), Suc w)),
     NewForConfig = (\<lambda>cfg w. (case cfg of RestConfig n \<Rightarrow> Inr (DynClient n), w)),
     ToRESTMapper = (\<lambda>w. (Inr (RestMapper w), w)),
     ResourceFor = (\<lambda>mapper r w. (scripted_ResourceFor r, w)),
     ConfigNamespace = (\<lambda>w. (Inr ''default'', w)),
     ri_List = (\<lambda>ri w. (Inr items, w)),
     ri_Delete = (\<lambda>ri name w. (if name \<in> set locked then Some ''forbidden'' else None, w)),
     Fscanln = (\<lambda>w. (answer, w))\<rparr>"

text \<open>
  A second stand-in, whose world is the log of the delete calls it received, each with its
  accessor. Its answer depends on the accessor too: a namespaced resource is deleted only
  through the accessor of namespace \<open>foo\<close>, is not found in any other namespace, and cannot
  be deleted through the un-namespaced accessor.
\<close>

definition recording :: "((resourceInterface \<times> string) list, string, unit) api" where
  "recording =
    \<lparr>regexp_Compile = literal_Compile,
     MatchString = (\<lambda>re name. contains name re),
     ToRESTConfig = (\<lambda>w. (Inr (RestConfig 0), w)),
     NewForConfig = (\<lambda>cfg w. (case cfg of RestConfig n \<Rightarrow> Inr (DynClient n), w)),
     ToRESTMapper = (\<lambda>w. (Inr (RestMapper 0), w)),
     ResourceFor = (\<lambda>mapper r w. (scripted_ResourceFor r, w)),
     ConfigNamespace = (\<lambda>w. (Inr ''default'', w)),
     ri_List = (\<lambda>ri w. (Inr [], w)),
     ri_Delete =
       (\<lambda>ri name w.
          (case ri of Namespace base ns \<Rightarrow> if ns = ''foo'' then None else Some ''not found''
                    | DynResource c g \<Rightarrow> Some ''namespace required'',
           w @ [(ri, name)])),
     Fscanln = (\<lambda>w. ('''', w))\<rparr>"

definition start :: "nat state" where
  "start = \<lparr>world = 0, trace = []\<rparr>"

definition pods_gvr :: gvr where
  "pods_gvr = \<lparr>Group = '''', Version = ''v1'', Resource = ''pods''\<rparr>"

definition app_items :: "item list" where
  "app_items =
    [\<lparr>GetName = ''app-a'', GetNamespace = ''foo''\<rparr>,
     \<lparr>GetName = ''web-1'', GetNamespace = ''foo''\<rparr>,
     \<lparr>GetName = ''app-b'', GetNamespace = ''bar''\<rparr>]"

section \<open>Lemmas about the parts of runCmd\<close>

lemma lower_byte_y: "lower_byte c = CHR ''y'' \<longleftrightarrow> c = CHR ''y'' \<or> c = CHR ''Y''"
proof -
  have lt: "(of_char c :: nat) < 256" by simp
  show ?thesis
  proof (cases "65 \<le> (of_char c :: nat) \<and> (of_char c :: nat) \<le> 90")
    case True
    then have l: "lower_byte c = char_of ((of_char c :: nat) + 32)"
      by (simp add: lower_byte_def Let_def)
    have "char_of ((of_char c :: nat) + 32) = CHR ''y'' \<longleftrightarrow> (of_char c :: nat) + 32 = of_char CHR ''y''"
    proof
      assume "char_of ((of_char c :: nat) + 32) = CHR ''y''"
      then have "(of_char (char_of ((of_char c :: nat) + 32)) :: nat) = of_char CHR ''y''" by simp
      then show "(of_char c :: nat) + 32 = of_char CHR ''y''" using True by simp
    next
      assume "(of_char c :: nat) + 32 = of_char CHR ''y''"
      then show "char_of ((of_char c :: nat) + 32) = CHR ''y''" by (metis char_of_char)
    qed
    also have "\<dots> \<longleftrightarrow> (of_char c :: nat) = of_char CHR ''Y''" by auto
    also have "\<dots> \<longleftrightarrow> c = CHR ''Y''" by (simp only: of_char_eq_iff)
    finally have "lower_byte c = CHR ''y'' \<longleftrightarrow> c = CHR ''Y''" using l by simp
    moreover have "c \<noteq> CHR ''y''" using True by auto
    ultimately show ?thesis by simp
  next
    case False
    then have "lower_byte c = c" by (auto simp add: lower_byte_def Let_def)
    moreover have "c \<noteq> CHR ''Y''" using False by auto
    ultimately show ?thesis by simp
  qed
qed

lemma ToLower_y: "ToLower s = ''y'' \<longleftrightarrow> s = ''y'' \<or> s = ''Y''"
proof (cases s)
  case Nil
  then show ?thesis by (simp add: ToLower_def)
next
  case (Cons c cs)
  then show ?thesis
    by (cases cs) (auto simp add: ToLower_def lower_byte_y)
qed

lemma call_trace: "call ev f s = (r, s') \<Longrightarrow> trace s' = trace s @ [ev]"
  by (auto simp add: call_def split: prod.splits)

lemma call_world: "call ev f s = (r, s') \<Longrightarrow> f (world s) = (r, world s')"
  by (auto simp add: call_def split: prod.splits)

lemma emit_trace [simp]: "trace (emit ev s) = trace s @ [ev]"
  by (simp add: emit_def)

lemma emit_world [simp]: "world (emit ev s) = world s"
  by (simp add: emit_def)

lemma collect_matched_append:
  "collect_matched api re items acc =
     acc @ map to_ref (filter (\<lambda>i. MatchString api re (GetName i)) items)"
  by (induction items arbitrary: acc) (simp_all add: Let_def to_ref_def)

lemma get_loop_trace:
  "trace (get_loop api re items s) =
     trace s @ map (\<lambda>i. Println (GetName i)) (filter (\<lambda>i. MatchString api re (GetName i)) items)"
  by (induction items arbitrary: s) (simp_all add: Let_def)

lemma get_loop_world: "world (get_loop api re items s) = world s"
  by (induction items arbitrary: s) (simp_all add: Let_def)

lemma display_matches_trace:
  "trace (display_matches ms s) = trace s @ map (\<lambda>m. Write_Out (display_line m)) ms"
  by (induction ms arbitrary: s) simp_all

lemma display_matches_world: "world (display_matches ms s) = world s"
  by (induction ms arbitrary: s) simp_all

lemma BuildResourceInterface_ok_trace:
  assumes "BuildResourceInterface api fl resource s = (Inr ri, s')"
  shows "trace s' = trace s @ [Call_ToRESTConfig, Call_NewForConfig, Call_ToRESTMapper,
                               Call_ResourceFor resource, Call_Namespace]"
  using assms unfolding BuildResourceInterface_def
  by (auto split: prod.splits sum.splits if_splits dest!: call_trace)

lemma rebuild_client_trace:
  assumes "rebuild_client api resource s = (r, s')"
  shows "\<exists>evs. trace s' = trace s @ evs \<and> list_all (is_config_call resource) evs"
  using assms unfolding rebuild_client_def
  by (auto split: prod.splits sum.splits simp add: is_config_call_def dest!: call_trace)

lemma rebuild_client_ok_trace:
  assumes "rebuild_client api resource s = (Inr cg, s')"
  shows "trace s' = trace s @ [Call_ToRESTConfig, Call_NewForConfig, Call_ToRESTMapper,
                               Call_ResourceFor resource]"
  using assms unfolding rebuild_client_def
  by (auto split: prod.splits sum.splits dest!: call_trace)

lemma delete_loop_run:
  "\<exists>rs w. length rs = length ms \<and>
     delete_loop api baseRI ms deleted failed s =
       ((deleted + length (filter (\<lambda>r. r = None) rs),
         failed + length (filter (\<lambda>r. r \<noteq> None) rs)),
        \<lparr>world = w, trace = trace s @ concat (map (\<lambda>(m, r). item_events baseRI m r) (zip ms rs))\<rparr>)"
proof (induction ms arbitrary: deleted failed s)
  case Nil
  show ?case by (rule exI [of _ "[]"], rule exI [of _ "world s"]) simp
next
  case (Cons m ms)
  let ?t = "if NS m \<noteq> '''' then Namespace baseRI (NS m) else baseRI"
  obtain r w where d: "ri_Delete api ?t (Name m) (world s) = (r, w)"
    by (cases "ri_Delete api ?t (Name m) (world s)") blast
  let ?s = "\<lparr>world = w, trace = trace s @ item_events baseRI m r\<rparr>"
  let ?d = "if r = None then deleted + 1 else deleted"
  let ?f = "if r = None then failed else failed + 1"
  have step: "delete_loop api baseRI (m # ms) deleted failed s = delete_loop api baseRI ms ?d ?f ?s"
    using d by (cases r) (simp_all add: item_events_def report_def Let_def)
  from Cons.IH [of ?d ?f ?s] obtain rs w' where
    len: "length rs = length ms" and
    run: "delete_loop api baseRI ms ?d ?f ?s =
       ((?d + length (filter (\<lambda>r. r = None) rs), ?f + length (filter (\<lambda>r. r \<noteq> None) rs)),
        \<lparr>world = w', trace = trace ?s @ concat (map (\<lambda>(m, r). item_events baseRI m r) (zip ms rs))\<rparr>)"
    by blast
  have "length (r # rs) = length (m # ms) \<and>
     delete_loop api baseRI (m # ms) deleted failed s =
       ((deleted + length (filter (\<lambda>r. r = None) (r # rs)),
         failed + length (filter (\<lambda>r. r \<noteq> None) (r # rs))),
        \<lparr>world = w', trace = trace s
           @ concat (map (\<lambda>(m, r). item_events baseRI m r) (zip (m # ms) (r # rs)))\<rparr>)"
    unfolding step run using len by (cases r) simp_all
  then show ?case by blast
qed

lemma added_append: "trace s' = trace s @ evs \<Longrightarrow> added s s' = evs"
  by (simp add: added_def)

lemma contains_empty: "contains name []"
  by (cases name) simp_all

lemma delete_calls_append: "delete_calls (xs @ ys) = delete_calls xs @ delete_calls ys"
  by (induction xs rule: delete_calls.induct) simp_all



lemma delete_calls_items:
  "length rs = length ms \<Longrightarrow>
   delete_calls (concat (map (\<lambda>(m, r). item_events baseRI m r) (zip ms rs))) =
     map (\<lambda>m. (if NS m = '''' then baseRI else Namespace baseRI (NS m), Name m)) ms"
proof (induction ms arbitrary: rs)
  case Nil
  then show ?case by simp
next
  case (Cons m ms)
  then obtain r rs' where rs: "rs = r # rs'" by (cases rs) auto
  with Cons show ?case
    by (cases r) (simp_all add: item_events_def report_def)
qed

lemma prompt_not_display: "prompt_line n \<noteq> display_line m"
  by (simp add: prompt_line_def display_line_def newline_def)

lemma prompt_not_header: "prompt_line n \<noteq> header_line r"
  by (simp add: prompt_line_def header_line_def newline_def)

lemma prompt_not_deleted: "prompt_line n \<noteq> deleted_line m"
  by (simp add: prompt_line_def deleted_line_def newline_def)

lemma prompt_not_summary: "prompt_line n \<noteq> summary_line d f"
  by (simp add: prompt_line_def summary_line_def check_mark_def)

lemma prompt_not_aborted: "prompt_line n \<noteq> aborted_line"
  by (simp add: prompt_line_def aborted_line_def newline_def)



lemma runCmd_delete:
  assumes "regexp_Compile api (pattern_arg (resource # rest)) = Inr re"
    and "BuildResourceInterface api fl resource s0 = (Inr ri, s1)"
    and "call (Call_List ri) (ri_List api ri) s1 = (Inr items, s2)"
  shows "runCmd api fl (resource # rest) ''delete'' s0 = delete_case api fl resource re items s2"
    and "trace s2 = trace s0 @ [Call_ToRESTConfig, Call_NewForConfig, Call_ToRESTMapper,
                               Call_ResourceFor resource, Call_Namespace, Call_List ri]"
    and "world s2 = snd (ri_List api ri (world s1))"
proof -
  show "runCmd api fl (resource # rest) ''delete'' s0 = delete_case api fl resource re items s2"
    using assms by (simp add: runCmd_def)
  show "trace s2 = trace s0 @ [Call_ToRESTConfig, Call_NewForConfig, Call_ToRESTMapper,
                               Call_ResourceFor resource, Call_Namespace, Call_List ri]"
    using BuildResourceInterface_ok_trace [OF assms(2)] call_trace [OF assms(3)] by simp
  show "world s2 = snd (ri_List api ri (world s1))"
    using call_world [OF assms(3)] by simp
qed

lemma delete_case_empty:
  "collect_matched api re items [] = [] \<Longrightarrow>
   delete_case api fl resource re items s = (Return None, emit (Write_Out no_match_line) s)"
  by (simp add: delete_case_def)

lemma scripted_build_pods:
  "BuildResourceInterface (scripted b items locked answer) \<lparr>allNamespaces = True, autoYes = y\<rparr>
     ''pods'' start =
     (if b = 1 then (Inl (Ext ''no configuration''), \<lparr>world = 1, trace = [Call_ToRESTConfig]\<rparr>)
      else (Inr (DynResource (DynClient 0) pods_gvr),
       \<lparr>world = 1, trace = [Call_ToRESTConfig, Call_NewForConfig, Call_ToRESTMapper,
                             Call_ResourceFor ''pods'', Call_Namespace]\<rparr>))"
  by (simp add: BuildResourceInterface_def call_def scripted_def scripted_ResourceFor_def
      start_def pods_gvr_def)

lemma scripted_list:
  "call (Call_List ri) (ri_List (scripted b items locked answer) ri) \<lparr>world = w, trace = t\<rparr> =
     (Inr items, \<lparr>world = w, trace = t @ [Call_List ri]\<rparr>)"
  by (simp add: call_def scripted_def)

lemma scripted_compile:
  "p \<noteq> ''('' \<Longrightarrow> regexp_Compile (scripted b items locked answer) p = Inr p"
  by (simp add: scripted_def literal_Compile_def)

lemma scripted_match:
  "MatchString (scripted b items locked answer) re name = contains name re"
  by (simp add: scripted_def)

lemma delete_case_displayed:
  assumes "collect_matched api re items [] = matched" and "matched \<noteq> []"
  shows "delete_case api fl resource re items s =
    (let sd = \<lparr>world = world s, trace = trace s @ [Write_Out (header_line resource)]
                @ map (\<lambda>m. Write_Out (display_line m)) matched\<rparr> in
     if \<not> autoYes fl then
       (case Fscanln api (world s) of
          (confirm, w) \<Rightarrow>
            (let sp = \<lparr>world = w, trace = trace sd @ [Write_Out (prompt_line (length matched)),
                                                        Read_In confirm]\<rparr> in
             if confirm \<noteq> ''y'' \<and> confirm \<noteq> ''Y''
             then (Return None, emit (Write_Out aborted_line) sp)
             else delete_confirmed api resource matched sp))
     else delete_confirmed api resource matched sd)"
proof -
  have sd: "display_matches matched (emit (Write_Out (header_line resource)) s) =
      \<lparr>world = world s, trace = trace s @ [Write_Out (header_line resource)]
                @ map (\<lambda>m. Write_Out (display_line m)) matched\<rparr>"
    by (rule state.equality) (simp_all add: display_matches_trace display_matches_world)
  show ?thesis
    using assms by (simp add: delete_case_def Let_def sd ToLower_y split: prod.splits)
qed

lemma delete_confirmed_run:
  assumes "rebuild_client api resource s = (Inr (dynClient, g), s1)"
  shows "\<exists>rs w. length rs = length matched \<and>
    delete_confirmed api resource matched s =
      (Return None,
       \<lparr>world = w,
        trace = trace s @ [Call_ToRESTConfig, Call_NewForConfig, Call_ToRESTMapper,
                           Call_ResourceFor resource]
          @ concat (map (\<lambda>(m, r). item_events (DynResource dynClient g) m r) (zip matched rs))
          @ [Write_Out (summary_line (length (filter (\<lambda>r. r = None) rs))
                                     (length (filter (\<lambda>r. r \<noteq> None) rs)))]\<rparr>)"
proof -
  obtain rs w where len: "length rs = length matched" and
    run: "delete_loop api (DynResource dynClient g) matched 0 0 s1 =
       ((0 + length (filter (\<lambda>r. r = None) rs), 0 + length (filter (\<lambda>r. r \<noteq> None) rs)),
        \<lparr>world = w, trace = trace s1
           @ concat (map (\<lambda>(m, r). item_events (DynResource dynClient g) m r) (zip matched rs))\<rparr>)"
    using delete_loop_run [of matched api "DynResource dynClient g" 0 0 s1] by blast
  have "delete_confirmed api resource matched s =
      (Return None,
       \<lparr>world = w,
        trace = trace s @ [Call_ToRESTConfig, Call_NewForConfig, Call_ToRESTMapper,
                           Call_ResourceFor resource]
          @ concat (map (\<lambda>(m, r). item_events (DynResource dynClient g) m r) (zip matched rs))
          @ [Write_Out (summary_line (length (filter (\<lambda>r. r = None) rs))
                                     (length (filter (\<lambda>r. r \<noteq> None) rs)))]\<rparr>)"
    using assms run rebuild_client_ok_trace [OF assms]
    by (simp add: delete_confirmed_def emit_def)
  with len show ?thesis by blast
qed

lemma items_no_read:
  "filter is_Read (concat (map (\<lambda>(m, r). item_events baseRI m r) (zip ms rs))) = []"
  by (induction ms arbitrary: rs)
     (simp, case_tac rs, simp_all add: item_events_def report_def split: option.splits)

lemma items_no_prompt:
  "Write_Out (prompt_line n) \<notin> set (concat (map (\<lambda>(m, r). item_events baseRI m r) (zip ms rs)))"
  by (induction ms arbitrary: rs)
     (simp, case_tac rs,
      simp_all add: item_events_def report_def prompt_not_deleted split: option.splits)

lemma config_no_read: "list_all (is_config_call resource) evs \<Longrightarrow> filter is_Read evs = []"
  by (induction evs) (auto simp add: is_config_call_def)

lemma config_no_write: "list_all (is_config_call resource) evs \<Longrightarrow> filter is_Write evs = []"
  by (induction evs) (auto simp add: is_config_call_def)

lemma delete_confirmed_quiet:
  assumes "delete_confirmed api resource matched s = (res, s')"
  shows "\<exists>evs. trace s' = trace s @ evs \<and> filter is_Read evs = []
           \<and> (\<forall>n. Write_Out (prompt_line n) \<notin> set evs)"
proof (cases "rebuild_client api resource s")
  case (Pair r s1)
  show ?thesis
  proof (cases r)
    case (Inl err)
    with Pair assms have s': "s' = s1" by (simp add: delete_confirmed_def)
    from rebuild_client_trace [OF Pair] obtain evs where
      evs: "trace s1 = trace s @ evs" "list_all (is_config_call resource) evs" by blast
    have "\<forall>n. Write_Out (prompt_line n) \<notin> set evs"
      using evs(2) by (auto simp add: list_all_iff is_config_call_def)
    with evs s' config_no_read [OF evs(2)] show ?thesis by blast
  next
    case (Inr cg)
    obtain c g where cg: "cg = (c, g)" by (cases cg) blast
    from delete_confirmed_run [of api resource s c g s1 matched] Pair Inr cg assms
    obtain rs w where
      tr: "trace s' = trace s @ [Call_ToRESTConfig, Call_NewForConfig, Call_ToRESTMapper,
                           Call_ResourceFor resource]
          @ concat (map (\<lambda>(m, r). item_events (DynResource c g) m r) (zip matched rs))
          @ [Write_Out (summary_line (length (filter (\<lambda>r. r = None) rs))
                                     (length (filter (\<lambda>r. r \<noteq> None) rs)))]"
      by auto
    let ?items = "concat (map (\<lambda>(m, r). item_events (DynResource c g) m r) (zip matched rs))"
    have np: "Write_Out (prompt_line n) \<notin> set ?items" for n
      by (rule items_no_prompt)
    have nr: "filter is_Read ?items = []"
      by (rule items_no_read)
    have "filter is_Read ([Call_ToRESTConfig, Call_NewForConfig, Call_ToRESTMapper,
                           Call_ResourceFor resource] @ ?items
          @ [Write_Out (summary_line (length (filter (\<lambda>r. r = None) rs))
                                     (length (filter (\<lambda>r. r \<noteq> None) rs)))]) = []"
      using nr by simp
    moreover have "\<forall>n. Write_Out (prompt_line n) \<notin> set ([Call_ToRESTConfig, Call_NewForConfig,
           Call_ToRESTMapper, Call_ResourceFor resource] @ ?items
          @ [Write_Out (summary_line (length (filter (\<lambda>r. r = None) rs))
                                     (length (filter (\<lambda>r. r \<noteq> None) rs)))])"
      using np by (simp add: prompt_not_summary)
    ultimately show ?thesis using tr by blast
  qed
qed

lemma display_no_prompt:
  "filter (\<lambda>e. e = Write_Out (prompt_line n)) (map (\<lambda>m. Write_Out (display_line m)) ms) = []"
  by (induction ms) (simp_all add: prompt_not_display [symmetric])

lemma display_no_read: "filter is_Read (map (\<lambda>m. Write_Out (display_line m)) ms) = []"
  by (induction ms) simp_all

lemma display_no_delete: "filter is_Delete (map (\<lambda>m. Write_Out (display_line m)) ms) = []"
  by (induction ms) simp_all



lemma scripted_delete:
  "ri_Delete (scripted b items locked answer) ri name w =
     (if name \<in> set locked then Some ''forbidden'' else None, w)"
  by (simp add: scripted_def)

lemma scripted_scan: "Fscanln (scripted b items locked answer) w = (answer, w)"
  by (simp add: scripted_def)

lemma app_collect:
  "collect_matched (scripted b items locked answer) ''app'' app_items [] =
     [\<lparr>NS = ''foo'', Name = ''app-a''\<rparr>, \<lparr>NS = ''bar'', Name = ''app-b''\<rparr>]"
  by (simp add: scripted_match app_items_def)

lemma BuildResourceInterface_regex_eq:
  "BuildResourceInterface_regex api resource s =
     BuildResourceInterface api \<lparr>allNamespaces = False, autoYes = y\<rparr> resource s"
  by (simp add: BuildResourceInterface_regex_def BuildResourceInterface_def
      split: prod.splits sum.splits)

lemma delete_loop_regex_calls:
  "\<exists>evs. trace (delete_loop_regex api re ri items s) = trace s @ evs \<and>
     delete_calls evs =
       map (\<lambda>i. (ri, GetName i)) (filter (\<lambda>i. MatchString api re (GetName i)) items)"
proof (induction items arbitrary: s)
  case Nil
  show ?case by simp
next
  case (Cons item items)
  show ?case
  proof (cases "MatchString api re (GetName item)")
    case False
    with Cons.IH [of s] show ?thesis by simp
  next
    case True
    obtain r w where d: "ri_Delete api ri (GetName item) (world s) = (r, w)"
      by (cases "ri_Delete api ri (GetName item) (world s)") blast
    let ?line = "case r of
        None \<Rightarrow> Write_Out (''Deleted '' @ GetName item @ [newline])
      | Some err \<Rightarrow> Write_ErrOut (''Failed to delete '' @ GetName item @ '': '' @ err @ [newline])"
    let ?s = "\<lparr>world = w, trace = trace s @ [Call_Delete ri (GetName item) r, ?line]\<rparr>"
    have step: "delete_loop_regex api re ri (item # items) s = delete_loop_regex api re ri items ?s"
      using True d by (cases r) (simp_all add: Let_def)
    from Cons.IH [of ?s] obtain evs where
      evs: "trace (delete_loop_regex api re ri items ?s) = trace ?s @ evs"
        "delete_calls evs =
          map (\<lambda>i. (ri, GetName i)) (filter (\<lambda>i. MatchString api re (GetName i)) items)"
      by blast
    have "trace (delete_loop_regex api re ri (item # items) s) =
        trace s @ ([Call_Delete ri (GetName item) r, ?line] @ evs)"
      unfolding step using evs(1) by simp
    moreover have "delete_calls ([Call_Delete ri (GetName item) r, ?line] @ evs) =
        map (\<lambda>i. (ri, GetName i)) (filter (\<lambda>i. MatchString api re (GetName i)) (item # items))"
      using True evs(2) by (cases r) simp_all
    ultimately show ?thesis by blast
  qed
qed

lemma delete_loop_regex_added:
  "delete_calls (added s (delete_loop_regex api re ri items s)) =
     map (\<lambda>i. (ri, GetName i)) (filter (\<lambda>i. MatchString api re (GetName i)) items)"
  using delete_loop_regex_calls [of api re ri items s] by (auto simp add: added_def)

lemma delete_answers_append: "delete_answers (xs @ ys) = delete_answers xs @ delete_answers ys"
  by (induction xs rule: delete_answers.induct) simp_all

lemma delete_answers_items:
  "length rs = length ms \<Longrightarrow>
   delete_answers (concat (map (\<lambda>(m, r). item_events baseRI m r) (zip ms rs))) = rs"
proof (induction ms arbitrary: rs)
  case Nil
  then show ?case by simp
next
  case (Cons m ms)
  then obtain r rs' where rs: "rs = r # rs'" by (cases rs) auto
  with Cons show ?case
    by (cases r) (simp_all add: item_events_def report_def)
qed

lemma delete_loop_pinned:
  "\<exists>rs w. length rs = length ms \<and>
     delete_loop api baseRI ms deleted failed s =
       ((deleted + length (filter (\<lambda>r. r = None) rs),
         failed + length (filter (\<lambda>r. r \<noteq> None) rs)),
        \<lparr>world = w, trace = trace s @ concat (map (\<lambda>(m, r). item_events baseRI m r) (zip ms rs))\<rparr>)
     \<and> (\<forall>acc. foldl (\<lambda>(w, rs) m.
            case ri_Delete api (if NS m = '''' then baseRI else Namespace baseRI (NS m)) (Name m) w
            of (r, w') \<Rightarrow> (w', rs @ [r])) (world s, acc) ms = (w, acc @ rs))"
proof (induction ms arbitrary: deleted failed s)
  case Nil
  show ?case by (rule exI [of _ "[]"], rule exI [of _ "world s"]) simp
next
  case (Cons m ms)
  let ?t = "if NS m = '''' then baseRI else Namespace baseRI (NS m)"
  let ?step = "\<lambda>(w, rs) m.
            case ri_Delete api (if NS m = '''' then baseRI else Namespace baseRI (NS m)) (Name m) w
            of (r, w') \<Rightarrow> (w', rs @ [r])"
  obtain r w where d: "ri_Delete api ?t (Name m) (world s) = (r, w)"
    by (cases "ri_Delete api ?t (Name m) (world s)") blast
  let ?s = "\<lparr>world = w, trace = trace s @ item_events baseRI m r\<rparr>"
  let ?d = "if r = None then deleted + 1 else deleted"
  let ?f = "if r = None then failed else failed + 1"
  have step: "delete_loop api baseRI (m # ms) deleted failed s = delete_loop api baseRI ms ?d ?f ?s"
    using d by (cases r; cases "NS m = ''''") (simp_all add: item_events_def report_def Let_def)
  from Cons.IH [of ?d ?f ?s] obtain rs w' where
    len: "length rs = length ms" and
    run: "delete_loop api baseRI ms ?d ?f ?s =
       ((?d + length (filter (\<lambda>r. r = None) rs), ?f + length (filter (\<lambda>r. r \<noteq> None) rs)),
        \<lparr>world = w', trace = trace ?s @ concat (map (\<lambda>(m, r). item_events baseRI m r) (zip ms rs))\<rparr>)"
    and fold: "\<forall>acc. foldl ?step (world ?s, acc) ms = (w', acc @ rs)"
    by blast
  have a: "length (r # rs) = length (m # ms) \<and>
     delete_loop api baseRI (m # ms) deleted failed s =
       ((deleted + length (filter (\<lambda>r. r = None) (r # rs)),
         failed + length (filter (\<lambda>r. r \<noteq> None) (r # rs))),
        \<lparr>world = w', trace = trace s
           @ concat (map (\<lambda>(m, r). item_events baseRI m r) (zip (m # ms) (r # rs)))\<rparr>)"
    unfolding step run using len by (cases r) simp_all
  have b: "\<forall>acc. foldl ?step (world s, acc) (m # ms) = (w', acc @ (r # rs))"
  proof
    fix acc
    have "foldl ?step (world s, acc) (m # ms) = foldl ?step (w, acc @ [r]) ms"
      using d by simp
    also have "\<dots> = (w', (acc @ [r]) @ rs)"
      using fold by simp
    finally show "foldl ?step (world s, acc) (m # ms) = (w', acc @ (r # rs))" by simp
  qed
  from a b show ?case by blast
qed

section \<open>Scope resolution\<close>

text \<open>
  C3. When the client, the mapper, the resource type and the ambient namespace are all
  obtained, \<open>BuildResourceInterface\<close> returns the accessor of the scope the specification
  decides: for a type that resolves to \<open>nodes\<close> or \<open>namespaces\<close> the un-namespaced
  (cluster-scoped) accessor, whatever the all-namespaces flag and the ambient namespace
  are; for every other type the un-namespaced accessor, which lists across all namespaces,
  when the flag is set, and the accessor of the ambient namespace when it is not. The
  earlier variant, which has no flag, decides as the current one does with the flag unset.
\<close>

theorem BuildResourceInterface_scope:
  assumes "call Call_ToRESTConfig (ToRESTConfig api) s0 = (Inr restCfg, s1)"
    and "call Call_NewForConfig (NewForConfig api restCfg) s1 = (Inr dynClient, s2)"
    and "call Call_ToRESTMapper (ToRESTMapper api) s2 = (Inr mapper, s3)"
    and "call (Call_ResourceFor resource) (ResourceFor api mapper resource) s3 = (Inr g, s4)"
    and "call Call_Namespace (ConfigNamespace api) s4 = (Inr ns, s5)"
  shows "BuildResourceInterface api fl resource s0 =
           (Inr (scoped_accessor dynClient g (spec_scope (Resource g) (allNamespaces fl) ns)), s5)
         \<and> scoped_accessor dynClient g (spec_scope (Resource g) (allNamespaces fl) ns) =
           (if Resource g = ''nodes'' \<or> Resource g = ''namespaces'' then DynResource dynClient g
            else if allNamespaces fl then DynResource dynClient g
            else Namespace (DynResource dynClient g) ns)
         \<and> BuildResourceInterface_regex api resource s0 =
           (Inr (if Resource g = ''nodes'' \<or> Resource g = ''namespaces'' then DynResource dynClient g
                 else Namespace (DynResource dynClient g) ns), s5)"
  using assms
  by (simp add: BuildResourceInterface_def BuildResourceInterface_regex_def spec_scope_def)

text \<open>
  The three cases on the scripted world: \<open>no\<close> resolves to \<open>nodes\<close>; \<open>po\<close> resolves to
  \<open>pods\<close>, with the flag and without it.
\<close>

theorem BuildResourceInterface_scope_witness:
  "BuildResourceInterface (scripted 0 [] [] '''') \<lparr>allNamespaces = True, autoYes = False\<rparr> ''no'' start =
     (Inr (DynResource (DynClient 0) \<lparr>Group = '''', Version = ''v1'', Resource = ''nodes''\<rparr>),
      \<lparr>world = 1, trace = [Call_ToRESTConfig, Call_NewForConfig, Call_ToRESTMapper,
                            Call_ResourceFor ''no'', Call_Namespace]\<rparr>)
   \<and> BuildResourceInterface (scripted 0 [] [] '''') \<lparr>allNamespaces = True, autoYes = False\<rparr> ''po'' start =
     (Inr (DynResource (DynClient 0) pods_gvr),
      \<lparr>world = 1, trace = [Call_ToRESTConfig, Call_NewForConfig, Call_ToRESTMapper,
                            Call_ResourceFor ''po'', Call_Namespace]\<rparr>)
   \<and> BuildResourceInterface (scripted 0 [] [] '''') \<lparr>allNamespaces = False, autoYes = False\<rparr> ''po'' start =
     (Inr (Namespace (DynResource (DynClient 0) pods_gvr) ''default''),
      \<lparr>world = 1, trace = [Call_ToRESTConfig, Call_NewForConfig, Call_ToRESTMapper,
                            Call_ResourceFor ''po'', Call_Namespace]\<rparr>)"
proof -
  let ?api = "scripted 0 [] [] ''''"
  let ?s1 = "\<lparr>world = 1::nat, trace = [Call_ToRESTConfig]\<rparr>"
  let ?s2 = "\<lparr>world = 1::nat, trace = [Call_ToRESTConfig, Call_NewForConfig]\<rparr>"
  let ?s3 = "\<lparr>world = 1::nat, trace = [Call_ToRESTConfig, Call_NewForConfig, Call_ToRESTMapper]\<rparr>"
  let ?s4 = "\<lambda>r. \<lparr>world = 1::nat, trace = [Call_ToRESTConfig, Call_NewForConfig, Call_ToRESTMapper,
                Call_ResourceFor r]\<rparr>"
  let ?s5 = "\<lambda>r. \<lparr>world = 1::nat, trace = [Call_ToRESTConfig, Call_NewForConfig, Call_ToRESTMapper,
                Call_ResourceFor r, Call_Namespace]\<rparr>"
  have c1: "call Call_ToRESTConfig (ToRESTConfig ?api) start = (Inr (RestConfig 0), ?s1)"
    by (simp add: call_def scripted_def start_def)
  have c2: "call Call_NewForConfig (NewForConfig ?api (RestConfig 0)) ?s1 = (Inr (DynClient 0), ?s2)"
    by (simp add: call_def scripted_def)
  have c3: "call Call_ToRESTMapper (ToRESTMapper ?api) ?s2 = (Inr (RestMapper 1), ?s3)"
    by (simp add: call_def scripted_def)
  have c4: "call (Call_ResourceFor ''no'') (ResourceFor ?api (RestMapper 1) ''no'') ?s3 =
      (Inr \<lparr>Group = '''', Version = ''v1'', Resource = ''nodes''\<rparr>, ?s4 ''no'')"
    by (simp add: call_def scripted_def scripted_ResourceFor_def)
  have c4b: "call (Call_ResourceFor ''po'') (ResourceFor ?api (RestMapper 1) ''po'') ?s3 =
      (Inr pods_gvr, ?s4 ''po'')"
    by (simp add: call_def scripted_def scripted_ResourceFor_def pods_gvr_def)
  have c5: "call Call_Namespace (ConfigNamespace ?api) (?s4 r) = (Inr ''default'', ?s5 r)" for r
    by (simp add: call_def scripted_def)
  show ?thesis
    using BuildResourceInterface_scope [OF c1 c2 c3 c4 c5, of "\<lparr>allNamespaces = True, autoYes = False\<rparr>"]
      BuildResourceInterface_scope [OF c1 c2 c3 c4b c5, of "\<lparr>allNamespaces = True, autoYes = False\<rparr>"]
      BuildResourceInterface_scope [OF c1 c2 c3 c4b c5, of "\<lparr>allNamespaces = False, autoYes = False\<rparr>"]
    by (simp add: pods_gvr_def)
qed

section \<open>Selection\<close>

text \<open>
  C6. For every listing and every compiled pattern, the matches collected by the delete
  case are exactly the items whose name matches, as (namespace, name) pairs in the order
  of the listing, with nothing merged or dropped; the get case prints the names of the
  same items in the same order. Only the name is tested: two listings with the same
  names select the same names, whatever their namespaces and other fields are. The delete
  loop of the earlier variant issues its delete calls for the same items, in order.
\<close>

theorem selector_tests_name_only:
  "collect_matched api re items [] =
     map to_ref (filter (\<lambda>i. MatchString api re (GetName i)) items)
   \<and> added s (get_loop api re items s) =
     map (\<lambda>i. Println (GetName i)) (filter (\<lambda>i. MatchString api re (GetName i)) items)
   \<and> (map GetName items = map GetName items' \<longrightarrow>
        map Name (collect_matched api re items []) = map Name (collect_matched api re items' []))
   \<and> delete_calls (added s (delete_loop_regex api re ri items s)) =
     map (\<lambda>i. (ri, GetName i)) (filter (\<lambda>i. MatchString api re (GetName i)) items)"
proof -
  have nm: "map Name (collect_matched api re xs []) = filter (MatchString api re) (map GetName xs)"
    for xs :: "'c item_scheme list"
    by (simp add: collect_matched_append filter_map comp_def to_ref_def)
  have only_name: "map GetName items = map GetName items' \<longrightarrow>
        map Name (collect_matched api re items []) = map Name (collect_matched api re items' [])"
    by (simp only: nm) simp
  have kept: "collect_matched api re items [] =
      map to_ref (filter (\<lambda>i. MatchString api re (GetName i)) items)"
    by (simp add: collect_matched_append)
  have printed: "added s (get_loop api re items s) =
      map (\<lambda>i. Println (GetName i)) (filter (\<lambda>i. MatchString api re (GetName i)) items)"
    by (simp add: get_loop_trace added_append)
  from kept printed only_name delete_loop_regex_added [of s api re ri items]
  show ?thesis by blast
qed

theorem selector_tests_name_only_witness:
  "collect_matched (scripted 0 [] [] '''') ''app'' app_items [] =
     [\<lparr>NS = ''foo'', Name = ''app-a''\<rparr>, \<lparr>NS = ''bar'', Name = ''app-b''\<rparr>]
   \<and> added start (get_loop (scripted 0 [] [] '''') ''app'' app_items start) =
     [Println ''app-a'', Println ''app-b'']
   \<and> map GetName app_items = map GetName (map (\<lambda>i. i\<lparr>GetNamespace := ''app''\<rparr>) app_items)
   \<and> map Name (collect_matched (scripted 0 [] [] '''') ''app''
                 (map (\<lambda>i. i\<lparr>GetNamespace := ''app''\<rparr>) app_items) []) = [''app-a'', ''app-b'']"
  using selector_tests_name_only [of "scripted 0 [] [] ''''" "''app''" app_items start
      "map (\<lambda>i. i\<lparr>GetNamespace := ''app''\<rparr>) app_items"]
  by (simp add: scripted_def app_items_def to_ref_def)

text \<open>
  C7. If the empty pattern compiles to an expression that matches every name, as it does
  in Go's \<open>regexp\<close>, then selecting with it yields the full listing: every item is
  collected by the delete case and printed by the get case, in order. Leaving the pattern
  out is the same as giving the empty pattern.
\<close>

theorem empty_pattern_selects_all:
  assumes "regexp_Compile api '''' = Inr re" and "\<forall>name. MatchString api re name"
  shows "collect_matched api re items [] = map to_ref items
         \<and> added s (get_loop api re items s) = map (\<lambda>i. Println (GetName i)) items
         \<and> runCmd api fl [resource] operation s = runCmd api fl [resource, ''''] operation s"
  using assms by (simp add: collect_matched_append get_loop_trace added_append runCmd_def pattern_arg_def)

theorem empty_pattern_selects_all_witness:
  "regexp_Compile (scripted 0 [] [] '''') '''' = Inr ''''
   \<and> (\<forall>name. MatchString (scripted 0 [] [] '''') '''' name)
   \<and> collect_matched (scripted 0 [] [] '''') '''' app_items [] =
       [\<lparr>NS = ''foo'', Name = ''app-a''\<rparr>, \<lparr>NS = ''foo'', Name = ''web-1''\<rparr>,
        \<lparr>NS = ''bar'', Name = ''app-b''\<rparr>]"
proof -
  have c: "regexp_Compile (scripted 0 [] [] '''') '''' = Inr ''''"
    by (simp add: scripted_def literal_Compile_def)
  have m: "\<forall>name. MatchString (scripted 0 [] [] '''') '''' name"
    by (simp add: scripted_def contains_empty)
  show ?thesis
    using c m empty_pattern_selects_all [OF c m, of app_items]
    by (simp add: app_items_def to_ref_def)
qed

section \<open>The delete case\<close>

text \<open>
  C8. A delete invocation that lists successfully and matches nothing writes the line
  "No resources matched your pattern." and returns \<open>nil\<close>, so the process exits with
  status 0. Beyond the calls that build the accessor and list, it does nothing else: it
  writes no prompt, reads no input and issues no delete call.
\<close>

theorem empty_match_set_reports_and_succeeds:
  assumes "regexp_Compile api (pattern_arg (resource # rest)) = Inr re"
    and "BuildResourceInterface api fl resource s0 = (Inr ri, s1)"
    and "call (Call_List ri) (ri_List api ri) s1 = (Inr items, s2)"
    and "collect_matched api re items [] = []"
  shows "runCmd api fl (resource # rest) ''delete'' s0 = (Return None, emit (Write_Out no_match_line) s2)
    \<and> main_end (fst (runCmd api fl (resource # rest) ''delete'' s0)) = Exit 0
    \<and> added s0 (snd (runCmd api fl (resource # rest) ''delete'' s0)) =
        [Call_ToRESTConfig, Call_NewForConfig, Call_ToRESTMapper, Call_ResourceFor resource,
         Call_Namespace, Call_List ri, Write_Out no_match_line]
    \<and> filter is_Read (added s0 (snd (runCmd api fl (resource # rest) ''delete'' s0))) = []
    \<and> filter is_Delete (added s0 (snd (runCmd api fl (resource # rest) ''delete'' s0))) = []
    \<and> (\<forall>n. Write_Out (prompt_line n) \<notin> set (added s0 (snd (runCmd api fl (resource # rest) ''delete'' s0))))"
proof -
  have run: "runCmd api fl (resource # rest) ''delete'' s0 =
      (Return None, emit (Write_Out no_match_line) s2)"
    using runCmd_delete(1) [OF assms(1-3)] delete_case_empty [OF assms(4)] by simp
  have tr: "added s0 (emit (Write_Out no_match_line) s2) =
      [Call_ToRESTConfig, Call_NewForConfig, Call_ToRESTMapper, Call_ResourceFor resource,
       Call_Namespace, Call_List ri, Write_Out no_match_line]"
    using runCmd_delete(2) [OF assms(1-3)] by (simp add: added_def)
  have np: "prompt_line n \<noteq> no_match_line" for n
    by (simp add: prompt_line_def no_match_line_def newline_def)
  show ?thesis
    unfolding run by (simp add: tr np)
qed

theorem empty_match_set_reports_and_succeeds_witness:
  "runCmd (scripted 0 app_items [] ''y'') \<lparr>allNamespaces = True, autoYes = False\<rparr>
      [''pods'', ''zzz''] ''delete'' start =
     (Return None,
      \<lparr>world = 1, trace = [Call_ToRESTConfig, Call_NewForConfig, Call_ToRESTMapper,
          Call_ResourceFor ''pods'', Call_Namespace, Call_List (DynResource (DynClient 0) pods_gvr),
          Write_Out no_match_line]\<rparr>)"
proof -
  let ?api = "scripted 0 app_items [] ''y''"
  let ?fl = "\<lparr>allNamespaces = True, autoYes = False\<rparr>"
  let ?ri = "DynResource (DynClient 0) pods_gvr"
  let ?s1 = "\<lparr>world = 1::nat, trace = [Call_ToRESTConfig, Call_NewForConfig, Call_ToRESTMapper,
                             Call_ResourceFor ''pods'', Call_Namespace]\<rparr>"
  let ?s2 = "\<lparr>world = 1::nat, trace = [Call_ToRESTConfig, Call_NewForConfig, Call_ToRESTMapper,
                             Call_ResourceFor ''pods'', Call_Namespace, Call_List ?ri]\<rparr>"
  have p1: "regexp_Compile ?api (pattern_arg [''pods'', ''zzz'']) = Inr ''zzz''"
    by (simp add: scripted_compile pattern_arg_def)
  have p2: "BuildResourceInterface ?api ?fl ''pods'' start = (Inr ?ri, ?s1)"
    by (simp add: scripted_build_pods)
  have p3: "call (Call_List ?ri) (ri_List ?api ?ri) ?s1 = (Inr app_items, ?s2)"
    by (simp add: scripted_list)
  have p4: "collect_matched ?api ''zzz'' app_items [] = []"
    by (simp add: scripted_match app_items_def)
  show ?thesis
    using empty_match_set_reports_and_succeeds [OF p1 p2 p3 p4] by (simp add: emit_def)
qed

text \<open>
  C1. A delete invocation with a non-empty match set and without \<open>--yes\<close> writes the
  prompt exactly once and reads the input exactly once. If the answer read is neither
  \<open>y\<close> nor \<open>Y\<close>, it writes "Aborted." and returns \<open>nil\<close> with no delete call issued, so
  nothing is deleted and nothing fails. If the answer is \<open>y\<close> or \<open>Y\<close>, it goes on to the
  deletion phase. The answer is the string \<open>Fscanln\<close> stores in \<open>confirm\<close>.
\<close>

theorem confirmation_gate:
  assumes "regexp_Compile api (pattern_arg (resource # rest)) = Inr re"
    and "BuildResourceInterface api fl resource s0 = (Inr ri, s1)"
    and "call (Call_List ri) (ri_List api ri) s1 = (Inr items, s2)"
    and "collect_matched api re items [] = matched" and "matched \<noteq> []"
    and "\<not> autoYes fl"
    and "Fscanln api (world s2) = (confirm, w)"
    and "sp = \<lparr>world = w,
               trace = trace s2 @ [Write_Out (header_line resource)]
                 @ map (\<lambda>m. Write_Out (display_line m)) matched
                 @ [Write_Out (prompt_line (length matched)), Read_In confirm]\<rparr>"
  shows "(confirm \<noteq> ''y'' \<and> confirm \<noteq> ''Y'' \<longrightarrow>
            runCmd api fl (resource # rest) ''delete'' s0 =
              (Return None, emit (Write_Out aborted_line) sp)
            \<and> filter is_Delete (added s0 (emit (Write_Out aborted_line) sp)) = [])
       \<and> (confirm = ''y'' \<or> confirm = ''Y'' \<longrightarrow>
            runCmd api fl (resource # rest) ''delete'' s0 =
              delete_confirmed api resource matched sp)
       \<and> length (filter (\<lambda>e. e = Write_Out (prompt_line (length matched)))
                   (added s0 (snd (runCmd api fl (resource # rest) ''delete'' s0)))) = 1
       \<and> filter is_Read (added s0 (snd (runCmd api fl (resource # rest) ''delete'' s0))) =
            [Read_In confirm]"
proof -
  let ?run = "runCmd api fl (resource # rest) ''delete'' s0"
  let ?pre = "[Call_ToRESTConfig, Call_NewForConfig, Call_ToRESTMapper,
               Call_ResourceFor resource, Call_Namespace, Call_List ri]
              @ [Write_Out (header_line resource)]
              @ map (\<lambda>m. Write_Out (display_line m)) matched
              @ [Write_Out (prompt_line (length matched)), Read_In confirm]"
  have run: "?run = (if confirm \<noteq> ''y'' \<and> confirm \<noteq> ''Y''
                     then (Return None, emit (Write_Out aborted_line) sp)
                     else delete_confirmed api resource matched sp)"
    using runCmd_delete(1) [OF assms(1-3)] delete_case_displayed [OF assms(4,5)] assms(6-8)
    by (simp add: Let_def)
  have sp: "trace sp = trace s0 @ ?pre"
    using runCmd_delete(2) [OF assms(1-3)] assms(8) by simp
  have pre_prompt: "length (filter (\<lambda>e. e = Write_Out (prompt_line (length matched))) ?pre) = 1"
    by (simp add: display_no_prompt prompt_not_header [symmetric])
  have pre_read: "filter is_Read ?pre = [Read_In confirm]"
    by (simp add: display_no_read)
  have pre_delete: "filter is_Delete ?pre = []"
    by (simp add: display_no_delete)
  have rest: "\<exists>evs. added s0 (snd ?run) = ?pre @ evs \<and> filter is_Read evs = []
      \<and> filter (\<lambda>e. e = Write_Out (prompt_line (length matched))) evs = []"
  proof (cases "confirm \<noteq> ''y'' \<and> confirm \<noteq> ''Y''")
    case True
    then have "added s0 (snd ?run) = ?pre @ [Write_Out aborted_line]"
      using run sp by (simp add: added_def)
    then show ?thesis by (simp add: prompt_not_aborted [symmetric])
  next
    case False
    then have "?run = delete_confirmed api resource matched sp"
      using run by (simp only: if_False)
    then have r: "delete_confirmed api resource matched sp = (fst ?run, snd ?run)"
      by simp
    from delete_confirmed_quiet [OF r] obtain evs where
      evs: "trace (snd ?run) = trace sp @ evs" "filter is_Read evs = []"
        "\<forall>n. Write_Out (prompt_line n) \<notin> set evs"
      by blast
    have "added s0 (snd ?run) = ?pre @ evs"
      using evs(1) sp by (simp add: added_def)
    moreover have "filter (\<lambda>e. e = Write_Out (prompt_line (length matched))) evs = []"
      using evs(3) by (auto simp add: filter_empty_conv)
    ultimately show ?thesis using evs(2) by blast
  qed
  then obtain evs where evs: "added s0 (snd ?run) = ?pre @ evs" "filter is_Read evs = []"
      "filter (\<lambda>e. e = Write_Out (prompt_line (length matched))) evs = []"
    by blast
  have once: "length (filter (\<lambda>e. e = Write_Out (prompt_line (length matched)))
                   (added s0 (snd ?run))) = 1"
    unfolding evs(1) using pre_prompt evs(3) by (simp only: filter_append length_append) simp
  have read: "filter is_Read (added s0 (snd ?run)) = [Read_In confirm]"
    unfolding evs(1) using pre_read evs(2) by (simp only: filter_append) simp
  have nodel: "filter is_Delete (added s0 (emit (Write_Out aborted_line) sp)) = []"
    using sp pre_delete by (simp add: added_def)
  from run once read nodel show ?thesis by auto
qed

theorem confirmation_gate_witness:
  "runCmd (scripted 0 app_items [] ''n'') \<lparr>allNamespaces = True, autoYes = False\<rparr>
      [''pods'', ''app''] ''delete'' start =
     (Return None,
      \<lparr>world = 1,
       trace = [Call_ToRESTConfig, Call_NewForConfig, Call_ToRESTMapper,
          Call_ResourceFor ''pods'', Call_Namespace, Call_List (DynResource (DynClient 0) pods_gvr),
          Write_Out (header_line ''pods''),
          Write_Out (display_line \<lparr>NS = ''foo'', Name = ''app-a''\<rparr>),
          Write_Out (display_line \<lparr>NS = ''bar'', Name = ''app-b''\<rparr>),
          Write_Out (prompt_line (Suc (Suc 0))), Read_In ''n'', Write_Out aborted_line]\<rparr>)
   \<and> runCmd (scripted 0 app_items [] ''Y'') \<lparr>allNamespaces = True, autoYes = False\<rparr>
      [''pods'', ''app''] ''delete'' start =
     delete_confirmed (scripted 0 app_items [] ''Y'') ''pods''
       [\<lparr>NS = ''foo'', Name = ''app-a''\<rparr>, \<lparr>NS = ''bar'', Name = ''app-b''\<rparr>]
       \<lparr>world = 1,
        trace = [Call_ToRESTConfig, Call_NewForConfig, Call_ToRESTMapper,
          Call_ResourceFor ''pods'', Call_Namespace, Call_List (DynResource (DynClient 0) pods_gvr),
          Write_Out (header_line ''pods''),
          Write_Out (display_line \<lparr>NS = ''foo'', Name = ''app-a''\<rparr>),
          Write_Out (display_line \<lparr>NS = ''bar'', Name = ''app-b''\<rparr>),
          Write_Out (prompt_line (Suc (Suc 0))), Read_In ''Y'']\<rparr>"
proof -
  let ?fl = "\<lparr>allNamespaces = True, autoYes = False\<rparr>"
  let ?ri = "DynResource (DynClient 0) pods_gvr"
  let ?ms = "[\<lparr>NS = ''foo'', Name = ''app-a''\<rparr>, \<lparr>NS = ''bar'', Name = ''app-b''\<rparr>]"
  let ?s1 = "\<lparr>world = 1::nat, trace = [Call_ToRESTConfig, Call_NewForConfig, Call_ToRESTMapper,
                             Call_ResourceFor ''pods'', Call_Namespace]\<rparr>"
  let ?s2 = "\<lparr>world = 1::nat, trace = [Call_ToRESTConfig, Call_NewForConfig, Call_ToRESTMapper,
                             Call_ResourceFor ''pods'', Call_Namespace, Call_List ?ri]\<rparr>"
  let ?sp = "\<lambda>a. \<lparr>world = 1::nat,
               trace = trace ?s2 @ [Write_Out (header_line ''pods'')]
                 @ map (\<lambda>m. Write_Out (display_line m)) ?ms
                 @ [Write_Out (prompt_line (length ?ms)), Read_In a]\<rparr>"
  have p1: "regexp_Compile (scripted 0 app_items [] a) (pattern_arg [''pods'', ''app'']) = Inr ''app''"
    for a by (simp add: scripted_compile pattern_arg_def)
  have p2: "BuildResourceInterface (scripted 0 app_items [] a) ?fl ''pods'' start = (Inr ?ri, ?s1)"
    for a by (simp add: scripted_build_pods)
  have p3: "call (Call_List ?ri) (ri_List (scripted 0 app_items [] a) ?ri) ?s1 = (Inr app_items, ?s2)"
    for a by (simp add: scripted_list)
  have p4: "collect_matched (scripted 0 app_items [] a) ''app'' app_items [] = ?ms"
    for a by (rule app_collect)
  have p5: "?ms \<noteq> []" by simp
  have p6: "\<not> autoYes ?fl" by simp
  have p7: "Fscanln (scripted 0 app_items [] a) (world ?s2) = (a, 1)" for a
    by (simp add: scripted_scan)
  have p8: "?sp a = ?sp a" for a by simp
  show ?thesis
    using confirmation_gate [OF p1 p2 p3 p4 p5 p6 p7 p8, of "''n''"]
      confirmation_gate [OF p1 p2 p3 p4 p5 p6 p7 p8, of "''Y''"]
    by (simp add: emit_def)
qed



text \<open>
  C4. In the deletion phase the delete call of each match goes through an accessor chosen
  from the match's own namespace: the un-namespaced accessor of the rebuilt client when the
  namespace is empty, and that accessor scoped to exactly the match's namespace otherwise.
  This holds of the calls themselves and not only of their record in the trace: the world
  after the deletion phase and the answers the trace records are those of calling
  \<open>Delete\<close> through these accessors, match after match, from the world the rebuild left.
\<close>

theorem per_item_accessor:
  assumes "rebuild_client api resource s = (Inr (dynClient, g), s1)"
  shows "delete_calls (added s (snd (delete_confirmed api resource matched s))) =
     map (\<lambda>m. (if NS m = '''' then DynResource dynClient g
                else Namespace (DynResource dynClient g) (NS m), Name m)) matched
   \<and> foldl (\<lambda>(w, rs) m.
             case ri_Delete api (if NS m = '''' then DynResource dynClient g
                                 else Namespace (DynResource dynClient g) (NS m)) (Name m) w
             of (r, w') \<Rightarrow> (w', rs @ [r])) (world s1, []) matched =
       (world (snd (delete_confirmed api resource matched s)),
        delete_answers (added s (snd (delete_confirmed api resource matched s))))
   \<and> world (snd (delete_confirmed api resource matched s)) =
       foldl (\<lambda>w m. snd (ri_Delete api (if NS m = '''' then DynResource dynClient g
                                         else Namespace (DynResource dynClient g) (NS m))
                                    (Name m) w)) (world s1) matched"
proof -
  let ?base = "DynResource dynClient g"
  let ?step = "\<lambda>(w, rs) m.
             case ri_Delete api (if NS m = '''' then ?base else Namespace ?base (NS m)) (Name m) w
             of (r, w') \<Rightarrow> (w', rs @ [r])"
  let ?wstep = "\<lambda>w m. snd (ri_Delete api (if NS m = '''' then ?base else Namespace ?base (NS m))
                                    (Name m) w)"
  from delete_loop_pinned [of matched api ?base 0 0 s1] obtain rs w where
    len: "length rs = length matched" and
    loop: "delete_loop api ?base matched 0 0 s1 =
       ((0 + length (filter (\<lambda>r. r = None) rs), 0 + length (filter (\<lambda>r. r \<noteq> None) rs)),
        \<lparr>world = w, trace = trace s1
           @ concat (map (\<lambda>(m, r). item_events ?base m r) (zip matched rs))\<rparr>)" and
    fold: "\<forall>acc. foldl ?step (world s1, acc) matched = (w, acc @ rs)"
    by blast
  have run: "delete_confirmed api resource matched s =
      (Return None,
       \<lparr>world = w,
        trace = trace s @ [Call_ToRESTConfig, Call_NewForConfig, Call_ToRESTMapper,
                           Call_ResourceFor resource]
          @ concat (map (\<lambda>(m, r). item_events ?base m r) (zip matched rs))
          @ [Write_Out (summary_line (length (filter (\<lambda>r. r = None) rs))
                                     (length (filter (\<lambda>r. r \<noteq> None) rs)))]\<rparr>)"
    using assms loop rebuild_client_ok_trace [OF assms]
    by (simp add: delete_confirmed_def emit_def)
  have calls: "delete_calls (added s (snd (delete_confirmed api resource matched s))) =
     map (\<lambda>m. (if NS m = '''' then ?base else Namespace ?base (NS m), Name m)) matched"
    unfolding run
    by (simp add: added_def delete_calls_append delete_calls_items [OF len]
        del: append_assoc map_eq_conv)
  have answers: "delete_answers (added s (snd (delete_confirmed api resource matched s))) = rs"
    unfolding run
    by (simp add: added_def delete_answers_append delete_answers_items [OF len]
        del: append_assoc)
  have wd: "world (snd (delete_confirmed api resource matched s)) = w"
    unfolding run by simp
  have both: "foldl ?step (world s1, []) matched =
       (world (snd (delete_confirmed api resource matched s)),
        delete_answers (added s (snd (delete_confirmed api resource matched s))))"
    using fold answers wd by simp
  have fst_fold: "fst (foldl ?step (w0, acc) ms) = foldl ?wstep w0 ms" for w0 acc ms
    by (induction ms arbitrary: w0 acc) (simp_all split: prod.splits)
  have "world (snd (delete_confirmed api resource matched s)) = foldl ?wstep (world s1) matched"
    using both fst_fold [of "world s1" "[]" matched] by simp
  with calls both show ?thesis by blast
qed

text \<open>
  A run on the recording world, whose answers and whose log depend on the accessor of each
  call: one match in namespace \<open>foo\<close>, one with no namespace and one in namespace \<open>bar\<close>.
\<close>

theorem per_item_accessor_witness:
  "delete_confirmed recording ''pods''
       [\<lparr>NS = ''foo'', Name = ''app-a''\<rparr>, \<lparr>NS = '''', Name = ''node-1''\<rparr>,
        \<lparr>NS = ''bar'', Name = ''app-b''\<rparr>] \<lparr>world = [], trace = []\<rparr> =
     (Return None,
      \<lparr>world = [(Namespace (DynResource (DynClient 0) pods_gvr) ''foo'', ''app-a''),
                (DynResource (DynClient 0) pods_gvr, ''node-1''),
                (Namespace (DynResource (DynClient 0) pods_gvr) ''bar'', ''app-b'')],
       trace = [Call_ToRESTConfig, Call_NewForConfig, Call_ToRESTMapper, Call_ResourceFor ''pods'',
          Call_Delete (Namespace (DynResource (DynClient 0) pods_gvr) ''foo'') ''app-a'' None,
          Write_Out (deleted_line \<lparr>NS = ''foo'', Name = ''app-a''\<rparr>),
          Call_Delete (DynResource (DynClient 0) pods_gvr) ''node-1'' (Some ''namespace required''),
          Write_ErrOut (failed_line \<lparr>NS = '''', Name = ''node-1''\<rparr> ''namespace required''),
          Call_Delete (Namespace (DynResource (DynClient 0) pods_gvr) ''bar'') ''app-b''
            (Some ''not found''),
          Write_ErrOut (failed_line \<lparr>NS = ''bar'', Name = ''app-b''\<rparr> ''not found''),
          Write_Out (summary_line 1 2)]\<rparr>)
   \<and> delete_calls (added \<lparr>world = [], trace = []\<rparr> (snd (delete_confirmed recording ''pods''
       [\<lparr>NS = ''foo'', Name = ''app-a''\<rparr>, \<lparr>NS = '''', Name = ''node-1''\<rparr>,
        \<lparr>NS = ''bar'', Name = ''app-b''\<rparr>] \<lparr>world = [], trace = []\<rparr>))) =
     [(Namespace (DynResource (DynClient 0) pods_gvr) ''foo'', ''app-a''),
      (DynResource (DynClient 0) pods_gvr, ''node-1''),
      (Namespace (DynResource (DynClient 0) pods_gvr) ''bar'', ''app-b'')]
   \<and> delete_answers (added \<lparr>world = [], trace = []\<rparr> (snd (delete_confirmed recording ''pods''
       [\<lparr>NS = ''foo'', Name = ''app-a''\<rparr>, \<lparr>NS = '''', Name = ''node-1''\<rparr>,
        \<lparr>NS = ''bar'', Name = ''app-b''\<rparr>] \<lparr>world = [], trace = []\<rparr>))) =
     [None, Some ''namespace required'', Some ''not found'']"
proof -
  have p: "rebuild_client recording ''pods'' \<lparr>world = [], trace = []\<rparr> =
      (Inr (DynClient 0, pods_gvr),
       \<lparr>world = [], trace = [Call_ToRESTConfig, Call_NewForConfig, Call_ToRESTMapper,
                              Call_ResourceFor ''pods'']\<rparr>)"
    by (simp add: rebuild_client_def call_def recording_def scripted_ResourceFor_def pods_gvr_def)
  have d: "ri_Delete recording ri name w =
      (case ri of Namespace base ns \<Rightarrow> if ns = ''foo'' then None else Some ''not found''
                | DynResource c g \<Rightarrow> Some ''namespace required'',
       w @ [(ri, name)])" for ri name w
    by (simp add: recording_def)
  let ?ms = "[\<lparr>NS = ''foo'', Name = ''app-a''\<rparr>, \<lparr>NS = '''', Name = ''node-1''\<rparr>,
             \<lparr>NS = ''bar'', Name = ''app-b''\<rparr>]"
  let ?s = "\<lparr>world = [] :: (resourceInterface \<times> string) list, trace = []\<rparr>"
  have run: "delete_confirmed recording ''pods'' ?ms ?s =
     (Return None,
      \<lparr>world = [(Namespace (DynResource (DynClient 0) pods_gvr) ''foo'', ''app-a''),
                (DynResource (DynClient 0) pods_gvr, ''node-1''),
                (Namespace (DynResource (DynClient 0) pods_gvr) ''bar'', ''app-b'')],
       trace = [Call_ToRESTConfig, Call_NewForConfig, Call_ToRESTMapper, Call_ResourceFor ''pods'',
          Call_Delete (Namespace (DynResource (DynClient 0) pods_gvr) ''foo'') ''app-a'' None,
          Write_Out (deleted_line \<lparr>NS = ''foo'', Name = ''app-a''\<rparr>),
          Call_Delete (DynResource (DynClient 0) pods_gvr) ''node-1'' (Some ''namespace required''),
          Write_ErrOut (failed_line \<lparr>NS = '''', Name = ''node-1''\<rparr> ''namespace required''),
          Call_Delete (Namespace (DynResource (DynClient 0) pods_gvr) ''bar'') ''app-b''
            (Some ''not found''),
          Write_ErrOut (failed_line \<lparr>NS = ''bar'', Name = ''app-b''\<rparr> ''not found''),
          Write_Out (summary_line 1 2)]\<rparr>)"
    by (simp add: delete_confirmed_def p d emit_def Let_def numeral_2_eq_2)
  have calls: "delete_calls (added ?s (snd (delete_confirmed recording ''pods'' ?ms ?s))) =
     map (\<lambda>m. (if NS m = '''' then DynResource (DynClient 0) pods_gvr
                else Namespace (DynResource (DynClient 0) pods_gvr) (NS m), Name m)) ?ms"
    using per_item_accessor [OF p, of ?ms] by (rule conjunct1)
  have answers: "delete_answers (added ?s (snd (delete_confirmed recording ''pods'' ?ms ?s))) =
     [None, Some ''namespace required'', Some ''not found'']"
    by (simp only: run) (simp add: added_def)
  from calls have calls': "delete_calls (added ?s (snd (delete_confirmed recording ''pods'' ?ms ?s))) =
     [(Namespace (DynResource (DynClient 0) pods_gvr) ''foo'', ''app-a''),
      (DynResource (DynClient 0) pods_gvr, ''node-1''),
      (Namespace (DynResource (DynClient 0) pods_gvr) ''bar'', ''app-b'')]"
    by simp
  from run calls' answers show ?thesis by (intro conjI)
qed



text \<open>
  C10. The report lines of the deleting loop are "Deleted <namespace>/<name>" and
  "Failed to delete <namespace>/<name>: <error>" for every match, with no test of the
  namespace. For a match with an empty namespace they read "Deleted /<name>" and
  "Failed to delete /<name>: <error>", while the line that displays the same match before
  the confirmation is the name alone, without the slash.
\<close>

theorem delete_report_lines:
  "(\<exists>rs. length rs = length ms \<and>
      filter is_Write (added s (snd (delete_loop api baseRI ms deleted failed s))) =
        map (\<lambda>(m, r). case r of
               None \<Rightarrow> Write_Out (''Deleted '' @ NS m @ ''/'' @ Name m @ [newline])
             | Some err \<Rightarrow>
                 Write_ErrOut (''Failed to delete '' @ NS m @ ''/'' @ Name m @ '': '' @ err
                               @ [newline]))
            (zip ms rs))
   \<and> (NS m = '''' \<longrightarrow>
        deleted_line m = ''Deleted /'' @ Name m @ [newline]
      \<and> failed_line m err = ''Failed to delete /'' @ Name m @ '': '' @ err @ [newline]
      \<and> display_line m = ''  '' @ Name m @ [newline])"
proof -
  obtain rs w where len: "length rs = length ms" and
    run: "delete_loop api baseRI ms deleted failed s =
       ((deleted + length (filter (\<lambda>r. r = None) rs),
         failed + length (filter (\<lambda>r. r \<noteq> None) rs)),
        \<lparr>world = w, trace = trace s @ concat (map (\<lambda>(m, r). item_events baseRI m r) (zip ms rs))\<rparr>)"
    using delete_loop_run [of ms api baseRI deleted failed s] by blast
  have w: "filter is_Write (concat (map (\<lambda>(m, r). item_events baseRI m r) (zip xs ys))) =
        map (\<lambda>(m, r). case r of
               None \<Rightarrow> Write_Out (''Deleted '' @ NS m @ ''/'' @ Name m @ [newline])
             | Some err \<Rightarrow>
                 Write_ErrOut (''Failed to delete '' @ NS m @ ''/'' @ Name m @ '': '' @ err
                               @ [newline]))
            (zip xs ys)" for xs ys
  proof (induction xs arbitrary: ys)
    case Nil
    show ?case by simp
  next
    case (Cons x xs)
    show ?case
    proof (cases ys)
      case Nil
      then show ?thesis by simp
    next
      case (Cons y ys')
      with Cons.IH [of ys'] show ?thesis
        by (cases y) (simp_all add: item_events_def report_def deleted_line_def failed_line_def)
    qed
  qed
  have "filter is_Write (added s (snd (delete_loop api baseRI ms deleted failed s))) =
        map (\<lambda>(m, r). case r of
               None \<Rightarrow> Write_Out (''Deleted '' @ NS m @ ''/'' @ Name m @ [newline])
             | Some err \<Rightarrow>
                 Write_ErrOut (''Failed to delete '' @ NS m @ ''/'' @ Name m @ '': '' @ err
                               @ [newline]))
            (zip ms rs)"
    unfolding run by (simp add: added_def w)
  with len show ?thesis
    by (auto simp add: deleted_line_def failed_line_def display_line_def)
qed

theorem delete_report_lines_witness:
  "filter is_Write (added start (snd (delete_loop (scripted 0 [] [''node-2''] '''')
       (DynResource (DynClient 0) pods_gvr)
       [\<lparr>NS = '''', Name = ''node-1''\<rparr>, \<lparr>NS = '''', Name = ''node-2''\<rparr>] 0 0 start))) =
     [Write_Out (''Deleted /node-1'' @ [newline]),
      Write_ErrOut (''Failed to delete /node-2: forbidden'' @ [newline])]
   \<and> display_line \<lparr>NS = '''', Name = ''node-1''\<rparr> = ''  node-1'' @ [newline]"
  using delete_report_lines [of "[\<lparr>NS = '''', Name = ''node-1''\<rparr>, \<lparr>NS = '''', Name = ''node-2''\<rparr>]"
      start "scripted 0 [] [''node-2''] ''''" "DynResource (DynClient 0) pods_gvr" 0 0
      "\<lparr>NS = '''', Name = ''node-1''\<rparr>" "''forbidden''"]
  by (simp add: scripted_delete added_def start_def deleted_line_def failed_line_def)

section \<open>A pattern that does not compile\<close>

text \<open>
  C5. What \<open>runCmd\<close> does with a pattern that does not compile: it panics with the
  error of \<open>regexp.Compile\<close> before any call to the configuration or the cluster and
  before any output. It does not return, so no error reaches \<open>main\<close> and the process does
  not end through \<open>os.Exit(1)\<close>. The earlier variant does the same.
\<close>

theorem invalid_pattern_panics:
  assumes "regexp_Compile api (pattern_arg (resource # rest)) = Inl err"
  shows "runCmd api fl (resource # rest) operation s = (Panic (PanicError err), s)
    \<and> added s (snd (runCmd api fl (resource # rest) operation s)) = []
    \<and> main_end (fst (runCmd api fl (resource # rest) operation s)) = Crashed (PanicError err)
    \<and> (\<forall>e. fst (runCmd api fl (resource # rest) operation s) \<noteq> Return e)
    \<and> runCmd_regex api (resource # rest) operation s = (Panic (PanicError err), s)"
  using assms by (simp add: runCmd_def runCmd_regex_def added_def)

theorem invalid_pattern_panics_witness:
  "runCmd (scripted 0 app_items [] '''') \<lparr>allNamespaces = False, autoYes = False\<rparr>
      [''pods'', ''(''] ''get'' start =
     (Panic (PanicError ''missing closing )''), start)
   \<and> main_end (fst (runCmd (scripted 0 app_items [] '''') \<lparr>allNamespaces = False, autoYes = False\<rparr>
      [''pods'', ''(''] ''get'' start)) = Crashed (PanicError ''missing closing )'')"
proof -
  have p: "regexp_Compile (scripted 0 app_items [] '''') (pattern_arg [''pods'', ''('']) =
      Inl ''missing closing )''"
    by (simp add: scripted_def literal_Compile_def pattern_arg_def)
  show ?thesis
    using invalid_pattern_panics [OF p] by simp
qed

end
